theory Spec2Isabelle
  imports Complex_Main
begin

section \<open>Errors, raw results and arrays\<close>

text \<open>
  The exceptions that can leave \<^verbatim>\<open>objective.py\<close>. The three configuration errors are the
  \<^verbatim>\<open>ValueError\<close>s of \<^verbatim>\<open>Objective.__init__\<close> (lines 20, 25, 33); \<open>NotAsynchronous j\<close> is the
  \<^verbatim>\<open>ValueError\<close> of lines 76, 92 and 108, tagged with the position \<open>j\<close> of the rejected function in
  \<^verbatim>\<open>objective_functions\<close>; \<open>ZeroDivisionError\<close> is Python's \<^verbatim>\<open>len(items) % 0\<close>; the next three are the
  \<^verbatim>\<open>ValueError\<close>s NumPy raises for a ragged nested sequence, for operands that do not broadcast,
  and for \<^verbatim>\<open>np.concatenate\<close> on nothing or on arrays of different rank or width;
  \<open>UserException\<close> is whatever a user-supplied objective function raises.
\<close>

datatype error =
    DirectionsMismatch nat int
  | InvalidDirection string
  | NamesMismatch nat int
  | NotAsynchronous nat
  | ZeroDivisionError
  | InhomogeneousShape
  | BroadcastError
  | ConcatenateError
  | UserException string

text \<open>
  What a user function returns. A function called with the whole population (or with a batch)
  returns a flat sequence of numbers or a nested one, which may be ragged; a function called
  with one candidate returns a number or a small vector. Results of other ranks, and values
  that are not numbers, are not modelled. Numbers are reals: the only arithmetic of the
  module is a multiplication by \<open>1\<close> or \<open>-1\<close>.
\<close>

datatype vec_result = Flat "real list" | Stacked "real list list"

datatype item_result = Scalar real | Vector "real list"

text \<open>
  NumPy arrays of rank one and two, the only ranks these results give rise to. \<open>Array2 m rows\<close>
  has shape \<open>(length rows, m)\<close>: the width is kept beside the rows so that an array with no
  row still has one.
\<close>

datatype ndarray = Array1 "real list" | Array2 nat "real list list"

fun ndim :: "ndarray \<Rightarrow> nat" where
  "ndim (Array1 xs) = 1"
| "ndim (Array2 m rows) = 2"

fun shape :: "ndarray \<Rightarrow> nat list" where
  "shape (Array1 xs) = [length xs]"
| "shape (Array2 m rows) = [length rows, m]"

fun bind_err :: "error + 'a \<Rightarrow> ('a \<Rightarrow> error + 'b) \<Rightarrow> error + 'b" where
  "bind_err (Inl e) f = Inl e"
| "bind_err (Inr x) f = f x"

text \<open>Evaluating a list of computations in order; the first exception ends it.\<close>

fun collect :: "(error + 'a) list \<Rightarrow> error + 'a list" where
  "collect [] = Inr []"
| "collect (t # ts) =
     (case t of Inl e \<Rightarrow> Inl e
      | Inr r \<Rightarrow> (case collect ts of Inl e \<Rightarrow> Inl e | Inr rs \<Rightarrow> Inr (r # rs)))"

text \<open>
  \<^verbatim>\<open>np.array\<close> (and \<^verbatim>\<open>np.shape\<close>, which converts first) on a Python list of flat sequences: the
  empty list is the empty rank-one array, rows of one length make a matrix, anything else is
  ragged.
\<close>

fun np_array :: "real list list \<Rightarrow> error + ndarray" where
  "np_array [] = Inr (Array1 [])"
| "np_array (v # vs) =
     (if list_all (\<lambda>w. length w = length v) vs then Inr (Array2 (length v) (v # vs))
      else Inl InhomogeneousShape)"

fun np_asarray :: "vec_result \<Rightarrow> error + ndarray" where
  "np_asarray (Flat xs) = Inr (Array1 xs)"
| "np_asarray (Stacked rows) = np_array rows"

fun scalars :: "item_result list \<Rightarrow> real list option" where
  "scalars [] = Some []"
| "scalars (Scalar x # rs) = map_option ((#) x) (scalars rs)"
| "scalars (Vector v # rs) = None"

fun vectors :: "item_result list \<Rightarrow> real list list option" where
  "vectors [] = Some []"
| "vectors (Vector v # rs) = map_option ((#) v) (vectors rs)"
| "vectors (Scalar x # rs) = None"

text \<open>\<^verbatim>\<open>np.array\<close> on the list of the per-candidate results of one function.\<close>

definition np_array_items :: "item_result list \<Rightarrow> error + ndarray" where
  "np_array_items r =
     (case scalars r of Some xs \<Rightarrow> Inr (Array1 xs)
      | None \<Rightarrow> (case vectors r of Some rows \<Rightarrow> np_array rows | None \<Rightarrow> Inl InhomogeneousShape))"

text \<open>The attribute \<^verbatim>\<open>.T\<close>: a rank-one array is its own transpose.\<close>

fun T :: "ndarray \<Rightarrow> ndarray" where
  "T (Array1 xs) = Array1 xs"
| "T (Array2 m rows) = Array2 (length rows) (map (\<lambda>j. map (\<lambda>r. r ! j) rows) [0..<m])"

text \<open>
  The body of the normalisation loop: a result of rank two is iterated along its first axis
  and every sub-array appended, a flat one is appended whole.
\<close>

fun expand :: "ndarray \<Rightarrow> real list list" where
  "expand (Array2 m rows) = rows"
| "expand (Array1 xs) = [xs]"

text \<open>
  \<^verbatim>\<open>array * self.directions\<close>: NumPy broadcasts the list of directions against the last axis.
  Two lengths are compatible when they are equal or one of them is 1; the axis of length 1 is
  stretched.
\<close>

definition broadcast_ok :: "nat \<Rightarrow> nat \<Rightarrow> bool" where
  "broadcast_ok m d \<longleftrightarrow> m = d \<or> m = 1 \<or> d = 1"

definition broadcast_len :: "nat \<Rightarrow> nat \<Rightarrow> nat" where
  "broadcast_len m d = (if m = 1 then d else m)"

definition stretch :: "nat \<Rightarrow> 'a list \<Rightarrow> 'a list" where
  "stretch n v = (if length v = n then v else replicate n (hd v))"

definition mul_row :: "real list \<Rightarrow> int list \<Rightarrow> real list" where
  "mul_row row ds =
     (let n = broadcast_len (length row) (length ds)
      in map2 (\<lambda>x d. x * real_of_int d) (stretch n row) (stretch n ds))"

fun multiply :: "ndarray \<Rightarrow> int list \<Rightarrow> error + ndarray" where
  "multiply (Array1 xs) ds =
     (if broadcast_ok (length xs) (length ds) then Inr (Array1 (mul_row xs ds))
      else Inl BroadcastError)"
| "multiply (Array2 m rows) ds =
     (if broadcast_ok m (length ds)
      then Inr (Array2 (broadcast_len m (length ds)) (map (\<lambda>r. mul_row r ds) rows))
      else Inl BroadcastError)"

section \<open>Construction\<close>

text \<open>
  The fields \<^verbatim>\<open>Objective.__init__\<close> sets. \<open>'f\<close> is the type of the objective functions, which
  differs between the variants. \<^verbatim>\<open>true_pareto\<close> is stored and never read.
\<close>

record 'f Objective =
  objective_functions :: "'f list"
  num_objectives :: int
  directions :: "int list"
  objective_names :: "string list"
  true_pareto :: "real list list option"

record 'f BatchObjective = "'f Objective" +
  batch_size :: int

text \<open>The first argument is a list of functions or a single function (line 6).\<close>

datatype 'f functions_arg = Single 'f | Several "'f list"

fun as_list :: "'f functions_arg \<Rightarrow> 'f list" where
  "as_list (Single f) = [f]"
| "as_list (Several fs) = fs"

text \<open>The loop of lines 22 to 27, with \<^verbatim>\<open>self.directions\<close> as the accumulator.\<close>

fun convert_directions :: "string list \<Rightarrow> int list \<Rightarrow> error + int list" where
  "convert_directions [] acc = Inr acc"
| "convert_directions (d # ds) acc =
     (if d \<notin> set [''minimize'', ''maximize''] then Inl (InvalidDirection d)
      else convert_directions ds (acc @ [if d = ''minimize'' then 1 else - 1]))"

text \<open>The decimal numeral of the f-string \<^verbatim>\<open>f"objective_{i}"\<close>.\<close>

fun string_of_nat :: "nat \<Rightarrow> string" where
  "string_of_nat n =
     (if n < 10 then [''0123456789'' ! n]
      else string_of_nat (n div 10) @ [''0123456789'' ! (n mod 10)])"

declare string_of_nat.simps [simp del]

definition default_names :: "int \<Rightarrow> string list" where
  "default_names n = map (\<lambda>i. ''objective_'' @ string_of_nat i) [0..<nat n]"

text \<open>Lines 11 to 14.\<close>

definition init_num_objectives :: "'f list \<Rightarrow> int option \<Rightarrow> int" where
  "init_num_objectives fs num = (case num of None \<Rightarrow> int (length fs) | Some k \<Rightarrow> k)"

text \<open>Lines 16 to 27. \<^verbatim>\<open>[1] * n\<close> is the empty list for a negative \<open>n\<close>.\<close>

definition init_directions :: "int \<Rightarrow> string list option \<Rightarrow> error + int list" where
  "init_directions n dirs =
     (case dirs of
        None \<Rightarrow> Inr (replicate (nat n) 1)
      | Some ds \<Rightarrow>
          if int (length ds) \<noteq> n then Inl (DirectionsMismatch (length ds) n)
          else convert_directions ds [])"

text \<open>Lines 29 to 35. \<^verbatim>\<open>range(n)\<close> is empty for a negative \<open>n\<close>.\<close>

definition init_names :: "int \<Rightarrow> string list option \<Rightarrow> error + string list" where
  "init_names n names =
     (case names of
        None \<Rightarrow> Inr (default_names n)
      | Some ns \<Rightarrow>
          if int (length ns) \<noteq> n then Inl (NamesMismatch (length ns) n) else Inr ns)"

text \<open>\<^verbatim>\<open>Objective.__init__\<close>, which every variant but the batch one inherits unchanged.\<close>

definition Objective_init ::
  "'f functions_arg \<Rightarrow> int option \<Rightarrow> string list option \<Rightarrow> string list option \<Rightarrow>
     real list list option \<Rightarrow> error + 'f Objective" where
  "Objective_init fa num dirs names tp =
     (let fs = as_list fa; n = init_num_objectives fs num
      in bind_err (init_directions n dirs)
           (\<lambda>dl. bind_err (init_names n names)
              (\<lambda>nl. Inr \<lparr>objective_functions = fs, num_objectives = n, directions = dl,
                          objective_names = nl, true_pareto = tp\<rparr>)))"

text \<open>\<^verbatim>\<open>BatchObjective.__init__\<close>: the base constructor, then the batch size is stored as given.\<close>

definition BatchObjective_init ::
  "'f functions_arg \<Rightarrow> int \<Rightarrow> int option \<Rightarrow> string list option \<Rightarrow> string list option \<Rightarrow>
     real list list option \<Rightarrow> error + 'f BatchObjective" where
  "BatchObjective_init fa bs num dirs names tp =
     bind_err (Objective_init fa num dirs names tp)
       (\<lambda>obj. Inr \<lparr>objective_functions = objective_functions obj,
                   num_objectives = num_objectives obj, directions = directions obj,
                   objective_names = objective_names obj, true_pareto = true_pareto obj,
                   batch_size = bs\<rparr>)"

section \<open>Evaluation\<close>

text \<open>
  An evaluation returns a pair: the calls of user functions it made, in order (each the
  position of the function in \<^verbatim>\<open>objective_functions\<close> and the argument), and the outcome, an
  exception or the fitness array. \<^verbatim>\<open>evaluate\<close> is the second component. A user function is a
  function to \<open>error + result\<close>: \<open>Inl e\<close> when the call raises \<open>e\<close>. The two sequential
  variants use what a call returns, so their functions are taken to be synchronous.
\<close>

type_synonym 'a calls = "(nat \<times> 'a) list"

subsection \<open>\<^verbatim>\<open>Objective.evaluate\<close>\<close>

text \<open>
  Line 40, \<^verbatim>\<open>[objective_function(items) for objective_function in self.objective_functions]\<close>:
  the functions are called in order with the whole population, and the first exception ends
  the comprehension.
\<close>

fun call_all :: "nat \<Rightarrow> ('a \<Rightarrow> error + 'r) list \<Rightarrow> 'a \<Rightarrow> 'a calls \<times> (error + 'r list)" where
  "call_all j [] x = ([], Inr [])"
| "call_all j (f # fs) x =
     (case f x of
        Inl e \<Rightarrow> ([(j, x)], Inl e)
      | Inr r \<Rightarrow>
          (case call_all (Suc j) fs x of
             (cs, res) \<Rightarrow> ((j, x) # cs, bind_err res (\<lambda>rs. Inr (r # rs)))))"

text \<open>Lines 42 to 48: \<^verbatim>\<open>np.shape(r)\<close> converts \<open>r\<close>, then \<open>r\<close> is expanded into \<^verbatim>\<open>solutions\<close>.\<close>

fun Objective_solutions :: "vec_result list \<Rightarrow> error + real list list" where
  "Objective_solutions [] = Inr []"
| "Objective_solutions (r # rs) =
     bind_err (np_asarray r)
       (\<lambda>a. bind_err (Objective_solutions rs) (\<lambda>sols. Inr (expand a @ sols)))"

text \<open>Line 49: \<^verbatim>\<open>np.array(solutions) * self.directions\<close>, with no transposition.\<close>

definition Objective_stack :: "vec_result list \<Rightarrow> error + ndarray" where
  "Objective_stack result = bind_err (Objective_solutions result) np_array"

definition Objective_normalise :: "vec_result list \<Rightarrow> int list \<Rightarrow> error + ndarray" where
  "Objective_normalise result ds = bind_err (Objective_stack result) (\<lambda>a. multiply a ds)"

definition Objective_run ::
  "('c list \<Rightarrow> error + vec_result) Objective \<Rightarrow> 'c list \<Rightarrow> 'c list calls \<times> (error + ndarray)" where
  "Objective_run obj items =
     (case call_all 0 (objective_functions obj) items of
        (cs, res) \<Rightarrow> (cs, bind_err res (\<lambda>result. Objective_normalise result (directions obj))))"

definition Objective_evaluate ::
  "('c list \<Rightarrow> error + vec_result) Objective \<Rightarrow> 'c list \<Rightarrow> error + ndarray" where
  "Objective_evaluate obj items = snd (Objective_run obj items)"

subsection \<open>\<^verbatim>\<open>ElementWiseObjective.evaluate\<close>\<close>

text \<open>Line 57, the inner comprehension \<^verbatim>\<open>[obj_func(item) for item in items]\<close>.\<close>

fun call_items :: "nat \<Rightarrow> ('c \<Rightarrow> error + 'r) \<Rightarrow> 'c list \<Rightarrow> 'c calls \<times> (error + 'r list)" where
  "call_items j f [] = ([], Inr [])"
| "call_items j f (x # xs) =
     (case f x of
        Inl e \<Rightarrow> ([(j, x)], Inl e)
      | Inr r \<Rightarrow>
          (case call_items j f xs of
             (cs, res) \<Rightarrow> ((j, x) # cs, bind_err res (\<lambda>rs. Inr (r # rs)))))"

text \<open>Lines 57 and 58, the outer comprehension over the functions.\<close>

fun call_each ::
  "nat \<Rightarrow> ('c \<Rightarrow> error + 'r) list \<Rightarrow> 'c list \<Rightarrow> 'c calls \<times> (error + 'r list list)" where
  "call_each j [] items = ([], Inr [])"
| "call_each j (f # fs) items =
     (case call_items j f items of
        (cs, Inl e) \<Rightarrow> (cs, Inl e)
      | (cs, Inr r) \<Rightarrow>
          (case call_each (Suc j) fs items of
             (cs', res) \<Rightarrow> (cs @ cs', bind_err res (\<lambda>rs. Inr (r # rs)))))"

text \<open>
  Lines 61 to 65 and 119 to 123: a result of rank two is transposed before its sub-arrays
  are appended, a flat one is appended whole.
\<close>

definition columns :: "ndarray \<Rightarrow> real list list" where
  "columns a = (if ndim a > 1 then expand (T a) else expand a)"

fun ElementWise_solutions :: "item_result list list \<Rightarrow> error + real list list" where
  "ElementWise_solutions [] = Inr []"
| "ElementWise_solutions (r # rs) =
     bind_err (np_array_items r)
       (\<lambda>a. bind_err (ElementWise_solutions rs) (\<lambda>sols. Inr (columns a @ sols)))"

text \<open>Lines 66 and 124: \<^verbatim>\<open>np.array(solutions).T * self.directions\<close>.\<close>

definition stack_columns :: "real list list \<Rightarrow> error + ndarray" where
  "stack_columns sols = bind_err (np_array sols) (\<lambda>a. Inr (T a))"

definition ElementWise_stack :: "item_result list list \<Rightarrow> error + ndarray" where
  "ElementWise_stack result = bind_err (ElementWise_solutions result) stack_columns"

definition ElementWise_normalise :: "item_result list list \<Rightarrow> int list \<Rightarrow> error + ndarray" where
  "ElementWise_normalise result ds = bind_err (ElementWise_stack result) (\<lambda>a. multiply a ds)"

definition ElementWiseObjective_run ::
  "('c \<Rightarrow> error + item_result) Objective \<Rightarrow> 'c list \<Rightarrow> 'c calls \<times> (error + ndarray)" where
  "ElementWiseObjective_run obj items =
     (case call_each 0 (objective_functions obj) items of
        (cs, res) \<Rightarrow> (cs, bind_err res (\<lambda>result. ElementWise_normalise result (directions obj))))"

definition ElementWiseObjective_evaluate ::
  "('c \<Rightarrow> error + item_result) Objective \<Rightarrow> 'c list \<Rightarrow> error + ndarray" where
  "ElementWiseObjective_evaluate obj items = snd (ElementWiseObjective_run obj items)"

subsection \<open>Asynchronous functions\<close>

text \<open>
  For the two asynchronous variants a function carries what \<^verbatim>\<open>asyncio.iscoroutinefunction\<close>
  says of it; \<open>call f x\<close> is the outcome of awaiting \<^verbatim>\<open>f(x)\<close>. The coroutines are pure and
  never suspend, so \<^verbatim>\<open>asyncio.gather\<close> starts every task of the group in the order given,
  each runs to its end, and the exception that leaves \<^verbatim>\<open>gather\<close> is the one of the first task
  that raised.
\<close>

record ('a, 'r) objective_function =
  iscoroutinefunction :: bool
  call :: "'a \<Rightarrow> error + 'r"

definition gather :: "(error + 'r) list \<Rightarrow> error + 'r list" where
  "gather tasks = collect tasks"

subsection \<open>\<^verbatim>\<open>BatchObjective.evaluate\<close>\<close>

text \<open>
  \<^verbatim>\<open>range(start, stop, step)\<close>. A zero step raises in Python; it cannot be reached here, the
  remainder by zero of line 81 raises first.
\<close>

definition py_range :: "int \<Rightarrow> int \<Rightarrow> int \<Rightarrow> int list" where
  "py_range start stop step =
     (if step > 0
      then map (\<lambda>k. start + int k * step) [0..<nat ((stop - start + step - 1) div step)]
      else if step < 0
      then map (\<lambda>k. start + int k * step) [0..<nat ((start - stop - step - 1) div (- step))]
      else [])"

text \<open>A slice bound: a negative one counts from the end, and both are clamped to the list.\<close>

definition slice_bound :: "int \<Rightarrow> int \<Rightarrow> nat" where
  "slice_bound n i = nat (if i < 0 then max (i + n) 0 else min i n)"

definition slice :: "'a list \<Rightarrow> int \<Rightarrow> int \<Rightarrow> 'a list" where
  "slice xs i j =
     (let n = int (length xs); a = slice_bound n i; b = slice_bound n j
      in take (b - a) (drop a xs))"

definition slice_from :: "'a list \<Rightarrow> int \<Rightarrow> 'a list" where
  "slice_from xs i = drop (slice_bound (int (length xs)) i) xs"

text \<open>Lines 81 to 87. Python's \<^verbatim>\<open>%\<close> is the floored remainder, as \<open>mod\<close> on \<open>int\<close> is.\<close>

definition BatchObjective_batches :: "int \<Rightarrow> 'c list \<Rightarrow> error + 'c list list" where
  "BatchObjective_batches bs items =
     (let n = int (length items)
      in if bs = 0 then Inl ZeroDivisionError
         else if n mod bs = 0
         then Inr (map (\<lambda>i. slice items i (i + bs)) (py_range 0 n bs))
         else Inr (map (\<lambda>i. slice items i (i + bs)) (py_range 0 (n - n mod bs) bs)
                   @ [slice_from items (n - n mod bs)]))"

text \<open>Lines 74 to 78.\<close>

definition BatchObjective_async_evaluate ::
  "nat \<Rightarrow> ('c list, vec_result) objective_function \<Rightarrow> 'c list list \<Rightarrow>
     'c list calls \<times> (error + vec_result list)" where
  "BatchObjective_async_evaluate j obj_func batches =
     (if \<not> iscoroutinefunction obj_func then ([], Inl (NotAsynchronous j))
      else (map (\<lambda>batch. (j, batch)) batches, gather (map (call obj_func) batches)))"

text \<open>
  \<^verbatim>\<open>np.concatenate\<close> along the first axis: every output is converted, there must be one at
  least, and all must have one rank and, at rank two, one width.
\<close>

fun join :: "ndarray \<Rightarrow> ndarray \<Rightarrow> error + ndarray" where
  "join (Array1 xs) (Array1 ys) = Inr (Array1 (xs @ ys))"
| "join (Array2 m rows) (Array2 m' rows') =
     (if m = m' then Inr (Array2 m (rows @ rows')) else Inl ConcatenateError)"
| "join (Array1 xs) (Array2 m' rows') = Inl ConcatenateError"
| "join (Array2 m rows) (Array1 ys) = Inl ConcatenateError"

fun join_all :: "ndarray \<Rightarrow> ndarray list \<Rightarrow> error + ndarray" where
  "join_all a [] = Inr a"
| "join_all a (b # bs) = bind_err (join a b) (\<lambda>c. join_all c bs)"

definition np_concatenate :: "vec_result list \<Rightarrow> error + ndarray" where
  "np_concatenate outs =
     bind_err (collect (map np_asarray outs))
       (\<lambda>arrays. case arrays of [] \<Rightarrow> Inl ConcatenateError | a # as \<Rightarrow> join_all a as)"

text \<open>The loop of lines 90 to 94.\<close>

fun BatchObjective_loop ::
  "nat \<Rightarrow> ('c list, vec_result) objective_function list \<Rightarrow> 'c list list \<Rightarrow>
     'c list calls \<times> (error + ndarray list)" where
  "BatchObjective_loop j [] batches = ([], Inr [])"
| "BatchObjective_loop j (obj_func # fs) batches =
     (if \<not> iscoroutinefunction obj_func then ([], Inl (NotAsynchronous j))
      else
        (case BatchObjective_async_evaluate j obj_func batches of
           (cs, Inl e) \<Rightarrow> (cs, Inl e)
         | (cs, Inr tasks_output) \<Rightarrow>
             (case np_concatenate tasks_output of
                Inl e \<Rightarrow> (cs, Inl e)
              | Inr a \<Rightarrow>
                  (case BatchObjective_loop (Suc j) fs batches of
                     (cs', res) \<Rightarrow> (cs @ cs', bind_err res (\<lambda>as. Inr (a # as)))))))"

text \<open>Lines 96 to 103: the arrays are expanded as in \<^verbatim>\<open>Objective.evaluate\<close>, with no transposition.\<close>

definition BatchObjective_stack :: "ndarray list \<Rightarrow> error + ndarray" where
  "BatchObjective_stack result = np_array (concat (map expand result))"

definition BatchObjective_normalise :: "ndarray list \<Rightarrow> int list \<Rightarrow> error + ndarray" where
  "BatchObjective_normalise result ds =
     bind_err (BatchObjective_stack result) (\<lambda>a. multiply a ds)"

definition BatchObjective_run ::
  "('c list, vec_result) objective_function BatchObjective \<Rightarrow> 'c list \<Rightarrow>
     'c list calls \<times> (error + ndarray)" where
  "BatchObjective_run obj items =
     (case BatchObjective_batches (batch_size obj) items of
        Inl e \<Rightarrow> ([], Inl e)
      | Inr batches \<Rightarrow>
          (case BatchObjective_loop 0 (objective_functions obj) batches of
             (cs, res) \<Rightarrow>
               (cs, bind_err res (\<lambda>result. BatchObjective_normalise result (directions obj)))))"

definition BatchObjective_evaluate ::
  "('c list, vec_result) objective_function BatchObjective \<Rightarrow> 'c list \<Rightarrow> error + ndarray" where
  "BatchObjective_evaluate obj items = snd (BatchObjective_run obj items)"

subsection \<open>\<^verbatim>\<open>AsyncElementWiseObjective.evaluate\<close>\<close>

text \<open>Lines 106 to 110.\<close>

definition AsyncElementWise_async_evaluate ::
  "nat \<Rightarrow> ('c, item_result) objective_function \<Rightarrow> 'c list \<Rightarrow>
     'c calls \<times> (error + item_result list)" where
  "AsyncElementWise_async_evaluate j obj_func items =
     (if \<not> iscoroutinefunction obj_func then ([], Inl (NotAsynchronous j))
      else (map (\<lambda>item. (j, item)) items, gather (map (call obj_func) items)))"

text \<open>The loop of lines 114 to 116; \<^verbatim>\<open>np.array(tasks_output)\<close> raises on ragged outputs.\<close>

fun AsyncElementWise_loop ::
  "nat \<Rightarrow> ('c, item_result) objective_function list \<Rightarrow> 'c list \<Rightarrow>
     'c calls \<times> (error + ndarray list)" where
  "AsyncElementWise_loop j [] items = ([], Inr [])"
| "AsyncElementWise_loop j (obj_func # fs) items =
     (case AsyncElementWise_async_evaluate j obj_func items of
        (cs, Inl e) \<Rightarrow> (cs, Inl e)
      | (cs, Inr tasks_output) \<Rightarrow>
          (case np_array_items tasks_output of
             Inl e \<Rightarrow> (cs, Inl e)
           | Inr a \<Rightarrow>
               (case AsyncElementWise_loop (Suc j) fs items of
                  (cs', res) \<Rightarrow> (cs @ cs', bind_err res (\<lambda>as. Inr (a # as))))))"

text \<open>Lines 117 to 124, as in \<^verbatim>\<open>ElementWiseObjective.evaluate\<close>.\<close>

definition AsyncElementWise_stack :: "ndarray list \<Rightarrow> error + ndarray" where
  "AsyncElementWise_stack result = stack_columns (concat (map columns result))"

definition AsyncElementWise_normalise :: "ndarray list \<Rightarrow> int list \<Rightarrow> error + ndarray" where
  "AsyncElementWise_normalise result ds =
     bind_err (AsyncElementWise_stack result) (\<lambda>a. multiply a ds)"

definition AsyncElementWiseObjective_run ::
  "('c, item_result) objective_function Objective \<Rightarrow> 'c list \<Rightarrow> 'c calls \<times> (error + ndarray)" where
  "AsyncElementWiseObjective_run obj items =
     (case AsyncElementWise_loop 0 (objective_functions obj) items of
        (cs, res) \<Rightarrow>
          (cs, bind_err res (\<lambda>result. AsyncElementWise_normalise result (directions obj))))"

definition AsyncElementWiseObjective_evaluate ::
  "('c, item_result) objective_function Objective \<Rightarrow> 'c list \<Rightarrow> error + ndarray" where
  "AsyncElementWiseObjective_evaluate obj items = snd (AsyncElementWiseObjective_run obj items)"

section \<open>Example objective functions\<close>

text \<open>
  The two objectives of the specification's end-to-end example, \<^verbatim>\<open>f(p) = p[0]**2\<close> and
  \<^verbatim>\<open>g(p) = (p[0]-5)**2\<close>, in each calling convention: per candidate, for the whole population
  as a flat sequence, and for the whole population as one row per candidate, the shape the
  function of \<^verbatim>\<open>tests/test_pareto_history.py\<close> returns.
\<close>

definition first_variable :: "real list \<Rightarrow> error + real" where
  "first_variable p = (case p of [] \<Rightarrow> Inl (UserException ''IndexError'') | x # xs \<Rightarrow> Inr x)"

definition f_item :: "real list \<Rightarrow> error + item_result" where
  "f_item p = bind_err (first_variable p) (\<lambda>x. Inr (Scalar (x * x)))"

definition g_item :: "real list \<Rightarrow> error + item_result" where
  "g_item p = bind_err (first_variable p) (\<lambda>x. Inr (Scalar ((x - 5) * (x - 5))))"

definition f_flat :: "real list list \<Rightarrow> error + vec_result" where
  "f_flat items =
     bind_err (collect (map first_variable items)) (\<lambda>xs. Inr (Flat (map (\<lambda>x. x * x) xs)))"

definition g_flat :: "real list list \<Rightarrow> error + vec_result" where
  "g_flat items =
     bind_err (collect (map first_variable items))
       (\<lambda>xs. Inr (Flat (map (\<lambda>x. (x - 5) * (x - 5)) xs)))"

definition fg_row :: "real list \<Rightarrow> real list" where
  "fg_row p = (case p of [] \<Rightarrow> [] | x # xs \<Rightarrow> [x * x, (x - 5) * (x - 5)])"

definition fg_rows :: "real list list \<Rightarrow> error + vec_result" where
  "fg_rows items = Inr (Stacked (map fg_row items))"

definition coroutine :: "('a \<Rightarrow> error + 'r) \<Rightarrow> ('a, 'r) objective_function" where
  "coroutine f = \<lparr>iscoroutinefunction = True, call = f\<rparr>"

definition synchronous :: "('a \<Rightarrow> error + 'r) \<Rightarrow> ('a, 'r) objective_function" where
  "synchronous f = \<lparr>iscoroutinefunction = False, call = f\<rparr>"

text \<open>Objects with the given functions and directions, and default names.\<close>

definition example_objective :: "'f list \<Rightarrow> int list \<Rightarrow> 'f Objective" where
  "example_objective fs ds =
     \<lparr>objective_functions = fs, num_objectives = int (length fs), directions = ds,
      objective_names = default_names (int (length fs)), true_pareto = None\<rparr>"

definition example_batch_objective :: "'f list \<Rightarrow> int list \<Rightarrow> int \<Rightarrow> 'f BatchObjective" where
  "example_batch_objective fs ds bs =
     \<lparr>objective_functions = fs, num_objectives = int (length fs), directions = ds,
      objective_names = default_names (int (length fs)), true_pareto = None, batch_size = bs\<rparr>"

section \<open>Notions the statements use\<close>

text \<open>
  Broadcasting alone: what \<^verbatim>\<open>array * directions\<close> does to the shape of the array when the
  values are left as they are.
\<close>

fun broadcast_to :: "nat \<Rightarrow> ndarray \<Rightarrow> ndarray" where
  "broadcast_to d (Array1 xs) = Array1 (stretch (broadcast_len (length xs) d) xs)"
| "broadcast_to d (Array2 m rows) =
     Array2 (broadcast_len m d) (map (stretch (broadcast_len m d)) rows)"

definition unsigned :: "nat \<Rightarrow> error + ndarray \<Rightarrow> error + ndarray" where
  "unsigned d r =
     bind_err r (\<lambda>a. if broadcast_ok (last (shape a)) d then Inr (broadcast_to d a)
                      else Inl BroadcastError)"


text \<open>The exception of the first call of a trace that raised, if one did.\<close>

fun first_raised :: "(nat \<Rightarrow> 'a \<Rightarrow> error + 'r) \<Rightarrow> 'a calls \<Rightarrow> error option" where
  "first_raised F [] = None"
| "first_raised F ((j, x) # cs) =
     (case F j x of Inl e \<Rightarrow> Some e | Inr r \<Rightarrow> first_raised F cs)"

text \<open>The invariant of a rank-two array: every row has the stored width.\<close>

fun well_formed :: "ndarray \<Rightarrow> bool" where
  "well_formed (Array1 xs) = True"
| "well_formed (Array2 m rows) = list_all (\<lambda>r. length r = m) rows"

section \<open>Evaluating the model on concrete inputs\<close>

lemmas init_defs = Objective_init_def BatchObjective_init_def init_num_objectives_def
  init_directions_def init_names_def default_names_def

lemmas eval_defs =
  Objective_evaluate_def Objective_run_def Objective_normalise_def Objective_stack_def
  ElementWiseObjective_evaluate_def ElementWiseObjective_run_def ElementWise_normalise_def
  ElementWise_stack_def stack_columns_def columns_def np_array_items_def
  BatchObjective_evaluate_def BatchObjective_run_def BatchObjective_normalise_def
  BatchObjective_stack_def BatchObjective_batches_def BatchObjective_async_evaluate_def
  np_concatenate_def py_range_def slice_def slice_from_def slice_bound_def gather_def
  AsyncElementWiseObjective_evaluate_def AsyncElementWiseObjective_run_def
  AsyncElementWise_normalise_def AsyncElementWise_stack_def AsyncElementWise_async_evaluate_def
  mul_row_def stretch_def broadcast_ok_def broadcast_len_def unsigned_def Let_def
  f_item_def g_item_def f_flat_def g_flat_def fg_rows_def fg_row_def first_variable_def
  coroutine_def synchronous_def upt_rec

lemmas ex_defs = example_objective_def example_batch_objective_def

section \<open>Lemmas on the constructors\<close>

lemma convert_directions_valid:
  "list_all (\<lambda>d. d = ''minimize'' \<or> d = ''maximize'') ds \<Longrightarrow>
     convert_directions ds acc = Inr (acc @ map (\<lambda>d. if d = ''minimize'' then 1 else - 1) ds)"
  by (induction ds arbitrary: acc) auto

lemma convert_directions_invalid:
  "\<not> list_all (\<lambda>d. d = ''minimize'' \<or> d = ''maximize'') ds \<Longrightarrow>
     \<exists>d \<in> set ds. d \<noteq> ''minimize'' \<and> d \<noteq> ''maximize'' \<and>
        convert_directions ds acc = Inl (InvalidDirection d)"
  by (induction ds arbitrary: acc) auto

lemma init_directions_Inr:
  "init_directions n dirs = Inr dl \<Longrightarrow>
     (case dirs of None \<Rightarrow> dl = replicate (nat n) 1
      | Some ds \<Rightarrow> int (length ds) = n \<and> list_all (\<lambda>d. d = ''minimize'' \<or> d = ''maximize'') ds \<and>
          dl = map (\<lambda>d. if d = ''minimize'' then 1 else - 1) ds)"
  unfolding init_directions_def
  apply (cases dirs; simp split: if_splits)
  subgoal for ds
    apply (cases "list_all (\<lambda>d. d = ''minimize'' \<or> d = ''maximize'') ds")
    using convert_directions_valid[of ds "[]"] convert_directions_invalid[of ds "[]"] by auto
  done

lemma Objective_init_Inr:
  "Objective_init fa num dirs names tp = Inr obj \<longleftrightarrow>
     (\<exists>dl nl. init_directions (init_num_objectives (as_list fa) num) dirs = Inr dl \<and>
        init_names (init_num_objectives (as_list fa) num) names = Inr nl \<and>
        obj = \<lparr>objective_functions = as_list fa,
               num_objectives = init_num_objectives (as_list fa) num,
               directions = dl, objective_names = nl, true_pareto = tp\<rparr>)"
  unfolding Objective_init_def Let_def
  by (cases "init_directions (init_num_objectives (as_list fa) num) dirs";
      cases "init_names (init_num_objectives (as_list fa) num) names") auto

lemma Objective_init_Inl_directions:
  "init_directions (init_num_objectives (as_list fa) num) dirs = Inl e \<Longrightarrow>
     Objective_init fa num dirs names tp = Inl e"
  unfolding Objective_init_def Let_def by simp

lemma BatchObjective_init_Inl:
  "Objective_init fa num dirs names tp = Inl e \<Longrightarrow>
     BatchObjective_init fa bs num dirs names tp = Inl e"
  unfolding BatchObjective_init_def by simp

section \<open>Claims on construction\<close>

text \<open>
  Claim C7. When \<^verbatim>\<open>directions\<close> is supplied and its length differs from
  \<^verbatim>\<open>num_objectives\<close>, or one of its tokens is neither \<^verbatim>\<open>'minimize'\<close> nor \<^verbatim>\<open>'maximize'\<close>,
  the constructor of every variant raises and builds no object: the length error when the
  lengths differ, otherwise the error naming an invalid token.
\<close>

theorem construction_rejects_bad_directions:
  fixes fa :: "'f functions_arg"
  assumes "dirs = Some ds"
    and "int (length ds) \<noteq> init_num_objectives (as_list fa) num \<or>
         (\<exists>d \<in> set ds. d \<noteq> ''minimize'' \<and> d \<noteq> ''maximize'')"
  shows "\<exists>e. Objective_init fa num dirs names tp = Inl e \<and>
             BatchObjective_init fa bs num dirs names tp = Inl e \<and>
             (if int (length ds) \<noteq> init_num_objectives (as_list fa) num
              then e = DirectionsMismatch (length ds) (init_num_objectives (as_list fa) num)
              else \<exists>d \<in> set ds. d \<noteq> ''minimize'' \<and> d \<noteq> ''maximize'' \<and> e = InvalidDirection d)"
proof (cases "int (length ds) \<noteq> init_num_objectives (as_list fa) num")
  case True
  then have "init_directions (init_num_objectives (as_list fa) num) dirs
      = Inl (DirectionsMismatch (length ds) (init_num_objectives (as_list fa) num))"
    using assms(1) by (simp add: init_directions_def)
  then show ?thesis
    using True Objective_init_Inl_directions BatchObjective_init_Inl by metis
next
  case False
  with assms(2) have "\<not> list_all (\<lambda>d. d = ''minimize'' \<or> d = ''maximize'') ds"
    by (auto simp: list_all_iff)
  from convert_directions_invalid[OF this, of "[]"] obtain d where
    d: "d \<in> set ds" "d \<noteq> ''minimize''" "d \<noteq> ''maximize''"
       "convert_directions ds [] = Inl (InvalidDirection d)" by blast
  then have "init_directions (init_num_objectives (as_list fa) num) dirs = Inl (InvalidDirection d)"
    using assms(1) False by (simp add: init_directions_def)
  then have "Objective_init fa num dirs names tp = Inl (InvalidDirection d)"
    "BatchObjective_init fa bs num dirs names tp = Inl (InvalidDirection d)"
    using Objective_init_Inl_directions BatchObjective_init_Inl by metis+
  then show ?thesis using False d by auto
qed

theorem construction_rejects_bad_directions_witness:
  "Objective_init (Several [f_item, g_item]) None
     (Some [''minimize'', ''maximize'', ''minimize'']) None None = Inl (DirectionsMismatch 3 2) \<and>
   BatchObjective_init (Several [f_item, g_item]) 4 None
     (Some [''minimize'', ''maximize'', ''minimize'']) None None = Inl (DirectionsMismatch 3 2) \<and>
   Objective_init (Several [f_item, g_item]) None
     (Some [''minimize'', ''largest'']) None None = Inl (InvalidDirection ''largest'')"
  using construction_rejects_bad_directions [where fa = "Several [f_item, g_item]"
      and num = None and dirs = "Some [''minimize'', ''maximize'', ''minimize'']"
      and ds = "[''minimize'', ''maximize'', ''minimize'']" and names = None and tp = None
      and bs = 4]
    construction_rejects_bad_directions [where fa = "Several [f_item, g_item]"
      and num = None and dirs = "Some [''minimize'', ''largest'']"
      and ds = "[''minimize'', ''largest'']" and names = None and tp = None and bs = 4]
  by (simp add: init_defs)

lemma BatchObjective_init_Inr:
  "BatchObjective_init fa bs num dirs names tp = Inr b \<longleftrightarrow>
     (\<exists>obj. Objective_init fa num dirs names tp = Inr obj \<and>
        b = \<lparr>objective_functions = objective_functions obj,
              num_objectives = num_objectives obj, directions = directions obj,
              objective_names = objective_names obj, true_pareto = true_pareto obj,
              batch_size = bs\<rparr>)"
  unfolding BatchObjective_init_def
  by (cases "Objective_init fa num dirs names tp") auto

lemma init_names_Inr:
  "init_names n names = Inr nl \<Longrightarrow>
     (case names of None \<Rightarrow> nl = default_names n | Some ns \<Rightarrow> int (length ns) = n \<and> nl = ns)"
  unfolding init_names_def by (cases names) (auto split: if_splits)

text \<open>
  Claim C8, amended. When \<^verbatim>\<open>num_objectives\<close> is omitted or not negative, every successful
  construction leaves \<^verbatim>\<open>directions\<close> and \<^verbatim>\<open>objective_names\<close> with exactly
  \<^verbatim>\<open>num_objectives\<close> entries; defaulted names are \<^verbatim>\<open>objective_0\<close>, \<^verbatim>\<open>objective_1\<close>, ...; supplied
  names are stored as given and supplied directions keep their length.
\<close>

theorem construction_invariant:
  fixes fa :: "'f functions_arg"
  assumes "0 \<le> init_num_objectives (as_list fa) num"
  shows "(Objective_init fa num dirs names tp = Inr obj \<longrightarrow>
            int (length (directions obj)) = num_objectives obj \<and>
            int (length (objective_names obj)) = num_objectives obj \<and>
            (names = None \<longrightarrow> objective_names obj =
               map (\<lambda>i. ''objective_'' @ string_of_nat i) [0..<nat (num_objectives obj)]) \<and>
            (\<forall>ns. names = Some ns \<longrightarrow> objective_names obj = ns) \<and>
            (\<forall>ds. dirs = Some ds \<longrightarrow> length (directions obj) = length ds)) \<and>
         (BatchObjective_init fa bs num dirs names tp = Inr bobj \<longrightarrow>
            int (length (directions bobj)) = num_objectives bobj \<and>
            int (length (objective_names bobj)) = num_objectives bobj \<and>
            (names = None \<longrightarrow> objective_names bobj =
               map (\<lambda>i. ''objective_'' @ string_of_nat i) [0..<nat (num_objectives bobj)]) \<and>
            (\<forall>ns. names = Some ns \<longrightarrow> objective_names bobj = ns) \<and>
            (\<forall>ds. dirs = Some ds \<longrightarrow> length (directions bobj) = length ds))"
proof -
  let ?n = "init_num_objectives (as_list fa) num"
  have base: "int (length (directions o')) = num_objectives o' \<and>
            int (length (objective_names o')) = num_objectives o' \<and>
            (names = None \<longrightarrow> objective_names o' =
               map (\<lambda>i. ''objective_'' @ string_of_nat i) [0..<nat (num_objectives o')]) \<and>
            (\<forall>ns. names = Some ns \<longrightarrow> objective_names o' = ns) \<and>
            (\<forall>ds. dirs = Some ds \<longrightarrow> length (directions o') = length ds)"
    if "Objective_init fa num dirs names tp = Inr o'" for o' :: "'f Objective"
  proof -
    from that obtain dl nl where
      dl: "init_directions ?n dirs = Inr dl" and nl: "init_names ?n names = Inr nl" and
      obj: "o' = \<lparr>objective_functions = as_list fa, num_objectives = ?n,
                 directions = dl, objective_names = nl, true_pareto = tp\<rparr>"
      unfolding Objective_init_Inr by blast
    have 1: "int (length dl) = ?n"
      using init_directions_Inr[OF dl] assms by (cases dirs) auto
    have 2: "int (length nl) = ?n"
      using init_names_Inr[OF nl] assms by (cases names) (auto simp: default_names_def)
    have 3: "names = None \<Longrightarrow> nl = map (\<lambda>i. ''objective_'' @ string_of_nat i) [0..<nat ?n]"
      using init_names_Inr[OF nl] by (simp add: default_names_def)
    have 4: "names = Some ns \<Longrightarrow> nl = ns" for ns
      using init_names_Inr[OF nl] by simp
    have 5: "dirs = Some ds \<Longrightarrow> length dl = length ds" for ds
      using init_directions_Inr[OF dl] by simp
    show ?thesis using 1 2 3 4 5 obj by simp
  qed
  have batch: "\<exists>o'. Objective_init fa num dirs names tp = Inr o' \<and>
        directions bobj = directions o' \<and> objective_names bobj = objective_names o' \<and>
        num_objectives bobj = num_objectives o'"
    if "BatchObjective_init fa bs num dirs names tp = Inr bobj"
    using that unfolding BatchObjective_init_Inr by auto
  show ?thesis
  proof (intro conjI impI)
    assume "Objective_init fa num dirs names tp = Inr obj"
    from base[OF this] show "int (length (directions obj)) = num_objectives obj"
      "int (length (objective_names obj)) = num_objectives obj"
      "\<forall>ns. names = Some ns \<longrightarrow> objective_names obj = ns"
      "\<forall>ds. dirs = Some ds \<longrightarrow> length (directions obj) = length ds"
      by simp_all
    assume "names = None"
    with base[OF \<open>Objective_init fa num dirs names tp = Inr obj\<close>]
    show "objective_names obj =
        map (\<lambda>i. ''objective_'' @ string_of_nat i) [0..<nat (num_objectives obj)]" by simp
  next
    assume "BatchObjective_init fa bs num dirs names tp = Inr bobj"
    from batch[OF this] obtain o' where o': "Objective_init fa num dirs names tp = Inr o'"
      "directions bobj = directions o'" "objective_names bobj = objective_names o'"
      "num_objectives bobj = num_objectives o'" by blast
    from base[OF o'(1)] o'(2-4) show "int (length (directions bobj)) = num_objectives bobj"
      "int (length (objective_names bobj)) = num_objectives bobj"
      "\<forall>ns. names = Some ns \<longrightarrow> objective_names bobj = ns"
      "\<forall>ds. dirs = Some ds \<longrightarrow> length (directions bobj) = length ds"
      by simp_all
    assume "names = None"
    with base[OF o'(1)] o'(2-4)
    show "objective_names bobj =
        map (\<lambda>i. ''objective_'' @ string_of_nat i) [0..<nat (num_objectives bobj)]" by simp
  qed
qed

theorem construction_invariant_witness:
  "0 \<le> init_num_objectives (as_list (Several [f_item, g_item])) None \<and>
   Objective_init (Several [f_item, g_item]) None (Some [''minimize'', ''maximize'']) None None
     = Inr \<lparr>objective_functions = [f_item, g_item], num_objectives = 2, directions = [1, - 1],
            objective_names = [''objective_0'', ''objective_1''], true_pareto = None\<rparr> \<and>
   int (length [1, - 1 :: int]) = 2 \<and> int (length [''objective_0'', ''objective_1'']) = 2 \<and>
   BatchObjective_init (Single (coroutine fg_rows)) 4 (Some 2) None (Some [''f'', ''g'']) None
     = Inr \<lparr>objective_functions = [coroutine fg_rows], num_objectives = 2, directions = [1, 1],
            objective_names = [''f'', ''g''], true_pareto = None, batch_size = 4\<rparr>"
  using construction_invariant [where fa = "Several [f_item, g_item]" and num = None
      and dirs = "Some [''minimize'', ''maximize'']" and names = None and tp = None
      and obj = "\<lparr>objective_functions = [f_item, g_item], num_objectives = 2,
        directions = [1, - 1], objective_names = [''objective_0'', ''objective_1''],
        true_pareto = None\<rparr>" and bs = 4
      and bobj = "\<lparr>objective_functions = [f_item, g_item], num_objectives = 2,
        directions = [1, - 1], objective_names = [''objective_0'', ''objective_1''],
        true_pareto = None, batch_size = 4\<rparr>"]
    construction_invariant [where fa = "Single (coroutine fg_rows)" and num = "Some 2"
      and dirs = None and names = "Some [''f'', ''g'']" and tp = None and bs = 4
      and obj = "\<lparr>objective_functions = [coroutine fg_rows], num_objectives = 2,
        directions = [1, 1], objective_names = [''f'', ''g''], true_pareto = None\<rparr>"
      and bobj = "\<lparr>objective_functions = [coroutine fg_rows], num_objectives = 2,
        directions = [1, 1], objective_names = [''f'', ''g''], true_pareto = None,
        batch_size = 4\<rparr>"]
  by (simp add: init_defs upt_rec string_of_nat.simps numeral_2_eq_2)

text \<open>
  Claim C8 as stated fails for a negative \<^verbatim>\<open>num_objectives\<close> with directions and names
  defaulted: \<^verbatim>\<open>[1] * -1\<close> and \<^verbatim>\<open>range(-1)\<close> are empty, and the object is built with
  \<^verbatim>\<open>num_objectives = -1\<close> and no direction or name.
\<close>

theorem negative_num_objectives_counterexample:
  "Objective_init (Several [f_item, g_item]) (Some (- 1)) None None None
     = Inr \<lparr>objective_functions = [f_item, g_item], num_objectives = - 1, directions = [],
            objective_names = [], true_pareto = None\<rparr>"
  by (simp add: init_defs)

section \<open>Directions that are all one\<close>















lemma unsigned_same_width:
  "well_formed a \<Longrightarrow> last (shape a) = d \<Longrightarrow> unsigned d (Inr a) = Inr a"
  by (cases a) (auto simp: unsigned_def broadcast_ok_def broadcast_len_def stretch_def
      list_all_iff map_idI)



section \<open>The batch size\<close>

text \<open>
  Claim C9, amended. \<^verbatim>\<open>BatchObjective.__init__\<close> does not look at \<^verbatim>\<open>batch_size\<close>: it fails
  exactly when the base constructor fails, with the same error, and otherwise stores the
  batch size it was given, zero included. With a zero batch size every call of
  \<^verbatim>\<open>evaluate\<close> raises \<^verbatim>\<open>ZeroDivisionError\<close> before any objective function is called.
\<close>

theorem batch_size_unchecked:
  "(\<forall>e. Objective_init fa num dirs names tp = Inl e \<longrightarrow>
       BatchObjective_init fa bs num dirs names tp = Inl e) \<and>
   (\<forall>obj. Objective_init fa num dirs names tp = Inr obj \<longrightarrow>
       (\<exists>b. BatchObjective_init fa bs num dirs names tp = Inr b \<and> batch_size b = bs)) \<and>
   (batch_size bobj = 0 \<longrightarrow> BatchObjective_run bobj items = ([], Inl ZeroDivisionError))"
  by (auto simp: BatchObjective_init_def BatchObjective_run_def BatchObjective_batches_def)

theorem batch_size_unchecked_witness:
  "BatchObjective_run
     \<lparr>objective_functions = [coroutine fg_rows], num_objectives = 1, directions = [1],
      objective_names = [''objective_0''], true_pareto = None, batch_size = 0\<rparr>
     [[0], [5]] = ([], Inl ZeroDivisionError)"
  using batch_size_unchecked [where fa = "Single (coroutine fg_rows)" and num = None
      and dirs = None and names = None and tp = None and bs = 0 and bobj = "\<lparr>objective_functions = [coroutine fg_rows],
      num_objectives = 1, directions = [1], objective_names = [''objective_0''],
      true_pareto = None, batch_size = 0\<rparr>" and items = "[[0], [5]]"]
  by simp

text \<open>
  Claim C9 as stated fails: constructing a batch objective with \<^verbatim>\<open>batch_size = 0\<close> succeeds.
\<close>

theorem zero_batch_size_counterexample:
  "BatchObjective_init (Single (coroutine fg_rows)) 0 None None None None
     = Inr \<lparr>objective_functions = [coroutine fg_rows], num_objectives = 1, directions = [1],
            objective_names = [''objective_0''], true_pareto = None, batch_size = 0\<rparr>"
  by (simp add: init_defs upt_rec string_of_nat.simps)

section \<open>The batch partition\<close>

lemma concat_chunks:
  "concat (map (\<lambda>k. take b (drop (k * b) xs)) [0..<q]) = take (q * b) xs"
proof (induction q)
  case 0
  show ?case by simp
next
  case (Suc q)
  have "take (q * b + b) xs = take (q * b) xs @ take b (drop (q * b) xs)"
    by (rule take_add)
  with Suc show ?case by (simp add: add.commute)
qed

lemma py_range_chunks:
  assumes "0 < b"
  shows "py_range 0 (int (q * b)) (int b) = map (\<lambda>k. int (k * b)) [0..<q]"
proof -
  have "(int (q * b) + int b - 1) div int b = int q"
  proof -
    have "(int (q * b) + int b - 1) = int q * int b + (int b - 1)" by simp
    also have "\<dots> div int b = int q"
      using assms by (subst div_mult_self3) (auto simp: div_pos_pos_trivial)
    finally show ?thesis .
  qed
  then show ?thesis using assms by (simp add: py_range_def)
qed

lemma slice_bound_nat: "m \<le> length xs \<Longrightarrow> slice_bound (int (length xs)) (int m) = m"
  by (simp add: slice_bound_def min_def)

lemma slice_nat:
  assumes "i + b \<le> length xs"
  shows "slice xs (int i) (int i + int b) = take b (drop i xs)"
proof -
  have "slice_bound (int (length xs)) (int i) = i"
    using assms by (intro slice_bound_nat) simp
  moreover have "slice_bound (int (length xs)) (int (i + b)) = i + b"
    using assms by (intro slice_bound_nat) simp
  ultimately show ?thesis by (simp add: slice_def Let_def)
qed

lemma full_chunks:
  assumes "0 < b" and "q * b \<le> length xs"
  shows "map (\<lambda>i. slice xs i (i + int b)) (py_range 0 (int (q * b)) (int b))
       = map (\<lambda>k. take b (drop (k * b) xs)) [0..<q]"
proof -
  have "slice xs (int (k * b)) (int (k * b) + int b) = take b (drop (k * b) xs)" if "k < q" for k
  proof -
    from that have "Suc k * b \<le> q * b" by (intro mult_le_mono1) simp
    with assms(2) have "k * b + b \<le> length xs" by simp
    then show ?thesis by (rule slice_nat)
  qed
  then show ?thesis
    unfolding py_range_chunks[OF assms(1)] by (simp add: o_def del: of_nat_mult)
qed

text \<open>The batches of lines 81 to 87 for a positive batch size, in terms of take and drop.\<close>

lemma BatchObjective_batches_positive:
  assumes "0 < b"
  shows "BatchObjective_batches (int b) xs =
    Inr (map (\<lambda>k. take b (drop (k * b) xs)) [0..<length xs div b]
         @ (if length xs mod b = 0 then [] else [drop (length xs div b * b) xs]))"
proof -
  let ?n = "length xs"
  let ?q = "?n div b"
  have qb: "?q * b \<le> ?n" by simp
  have modi: "int ?n mod int b = int (?n mod b)" by (simp add: zmod_int)
  have sub: "int ?n - int (?n mod b) = int (?q * b)"
    by (metis (no_types) add_diff_cancel_right' div_mult_mod_eq of_nat_add)
  show ?thesis
  proof (cases "?n mod b = 0")
    case True
    then have "int ?n = int (?q * b)" by (metis add.right_neutral div_mult_mod_eq)
    then show ?thesis
      using True assms full_chunks[OF assms qb]
      by (simp add: BatchObjective_batches_def Let_def modi del: of_nat_mult)
  next
    case False
    have "slice_bound (int ?n) (int (?q * b)) = ?q * b"
      using qb by (simp add: slice_bound_def min_def del: of_nat_mult) 
    then have "slice_from xs (int (?q * b)) = drop (?q * b) xs"
      by (simp add: slice_from_def)
    then show ?thesis
      using False assms full_chunks[OF assms qb]
      by (simp add: BatchObjective_batches_def Let_def modi sub del: of_nat_mult)
  qed
qed

lemma ceil_div_nat:
  assumes "0 < (b::nat)"
  shows "(n + b - 1) div b = n div b + (if n mod b = 0 then 0 else 1)"
proof (cases "n mod b = 0")
  case True
  then obtain q where n: "n = q * b" by (metis div_mult_mod_eq add.right_neutral)
  have 1: "n + b - 1 = q * b + (b - 1)" using n assms by simp
  have "(q * b + (b - 1)) div b = q + (b - 1) div b"
    using assms by (intro div_mult_self3) simp
  moreover have "(b - 1) div b = 0" using assms by (intro div_less) simp
  ultimately have 2: "(q * b + (b - 1)) div b = q" by simp
  have 3: "n div b = q" using n assms by simp
  show ?thesis unfolding 1 2 3 using True by simp
next
  case False
  define r where "r = n mod b"
  define q where "q = n div b"
  have n: "n = q * b + r" by (simp add: q_def r_def)
  have r: "0 < r" "r < b" using False assms by (auto simp: r_def)
  have "(Suc q * b + (r - 1)) div b = Suc q + (r - 1) div b"
    using assms by (intro div_mult_self3) simp
  moreover have "(r - 1) div b = 0" using r by (intro div_less) simp
  moreover have "n + b - 1 = Suc q * b + (r - 1)" using r n by simp
  ultimately have "(n + b - 1) div b = Suc q" by simp
  then show ?thesis using False by (simp add: q_def)
qed

lemma BatchObjective_batches_chunks:
  assumes "0 < b"
  shows "BatchObjective_batches (int b) xs =
    Inr (map (\<lambda>k. take b (drop (k * b) xs)) [0..<(length xs + b - 1) div b])"
proof (cases "length xs mod b = 0")
  case True
  then show ?thesis
    using BatchObjective_batches_positive[OF assms, of xs] ceil_div_nat[OF assms, of "length xs"]
    by simp
next
  case False
  have "length xs - length xs div b * b = length xs mod b"
    by (metis add_diff_cancel_left' div_mult_mod_eq)
  then have "length (drop (length xs div b * b) xs) < b"
    using assms by simp
  then have "take b (drop (length xs div b * b) xs) = drop (length xs div b * b) xs"
    by (intro take_all) simp
  then show ?thesis
    using False BatchObjective_batches_positive[OF assms, of xs]
      ceil_div_nat[OF assms, of "length xs"]
    by simp
qed

lemma ceiling_nat_div:
  assumes "0 < (b::nat)"
  shows "\<lceil>real n / real_of_int (int b)\<rceil> = int ((n + b - 1) div b)"
proof -
  have "real n / real_of_int (int b) = real_of_int (int n) / real_of_int (int b)" by simp
  then have "\<lceil>real n / real_of_int (int b)\<rceil> = - (- int n div int b)"
    by (simp only: ceiling_divide_eq_div)
  also have "\<dots> = int ((n + b - 1) div b)"
  proof -
    have "int ((n + b - 1) div b) = (int n + int b - 1) div int b"
      using assms by (simp add: zdiv_int of_nat_diff)
    moreover have "- (- int n div int b) = (int n + int b - 1) div int b"
    proof -
      define q where "q = (int n + int b - 1) div int b"
      define r where "r = (int n + int b - 1) mod int b"
      have eq: "int n + int b - 1 = q * int b + r" by (simp add: q_def r_def)
      have r: "0 \<le> r" "r < int b" using assms by (auto simp: r_def)
      have "- int n = (- q) * int b + (int b - 1 - r)" using eq by (simp add: algebra_simps)
      moreover have "0 \<le> int b - 1 - r" "int b - 1 - r < int b" using r by auto
      ultimately have "- int n div int b = - q"
        by (metis div_pos_pos_trivial add.right_neutral div_mult_self3 add.commute
            of_nat_0_less_iff assms less_irrefl)
      then show ?thesis by (simp add: q_def)
    qed
    ultimately show ?thesis by simp
  qed
  finally show ?thesis .
qed

text \<open>
  Claim C4. For a population of \<open>N \<ge> 1\<close> candidates and a batch size \<open>B \<ge> 1\<close>, lines 81 to 87
  of \<^verbatim>\<open>BatchObjective.evaluate\<close> cut the candidates into \<open>\<lceil>N / B\<rceil>\<close> chunks; every chunk but the
  last has length \<open>B\<close>; the last has length \<open>N mod B\<close>, or \<open>B\<close> when \<open>B\<close> divides \<open>N\<close>, and is not
  empty; the chunks concatenated are the candidates again; chunk \<open>k\<close> is the candidates from
  position \<open>k * B\<close> on, up to \<open>B\<close> of them.
\<close>

theorem batch_partition:
  assumes "items \<noteq> []" and "1 \<le> B"
  shows "\<exists>bs. BatchObjective_batches B items = Inr bs \<and>
     int (length bs) = \<lceil>real (length items) / real_of_int B\<rceil> \<and>
     (\<forall>k. Suc k < length bs \<longrightarrow> int (length (bs ! k)) = B) \<and>
     int (length (last bs)) =
       (if int (length items) mod B = 0 then B else int (length items) mod B) \<and>
     last bs \<noteq> [] \<and> concat bs = items \<and>
     (\<forall>k < length bs. bs ! k = take (nat B) (drop (k * nat B) items))"
proof -
  define b where "b = nat B"
  define n where "n = length items"
  define Q where "Q = (n + b - 1) div b"
  define bs where "bs = map (\<lambda>k. take b (drop (k * b) items)) [0..<Q]"
  have b: "0 < b" "B = int b" using assms(2) by (auto simp: b_def)
  have n: "0 < n" using assms(1) by (simp add: n_def)
  have Q: "Q = n div b + (if n mod b = 0 then 0 else 1)"
    unfolding Q_def by (rule ceil_div_nat[OF b(1)])
  have Qpos: "0 < Q"
  proof (cases "n mod b = 0")
    case True
    then have "b \<le> n" using n b(1) by (metis mod_less neq0_conv not_le)
    then have "0 < n div b" using b(1) by (simp add: div_greater_zero_iff)
    then show ?thesis using Q by simp
  next
    case False then show ?thesis using Q by simp
  qed
  have exact: "n div b * b = n" if "n mod b = 0"
    using that by (metis div_mult_mod_eq add.right_neutral)
  have cover: "n \<le> Q * b"
  proof (cases "n mod b = 0")
    case True then show ?thesis using Q exact by simp
  next
    case False
    have "n div b * b + n mod b = n" by (rule div_mult_mod_eq)
    moreover have "n mod b < b" using b(1) by (rule mod_less_divisor)
    ultimately have "n \<le> n div b * b + b" by linarith
    then show ?thesis using False Q by simp
  qed
  have run: "BatchObjective_batches B items = Inr bs"
    unfolding b(2) bs_def Q_def n_def by (rule BatchObjective_batches_chunks[OF b(1)])
  have len: "length bs = Q" by (simp add: bs_def)
  have nth: "bs ! k = take b (drop (k * b) items)" if "k < Q" for k
    using that by (simp add: bs_def)
  have count: "int (length bs) = \<lceil>real (length items) / real_of_int B\<rceil>"
    unfolding len Q_def n_def b(2) by (rule ceiling_nat_div[OF b(1), symmetric])
  have full: "length (bs ! k) = b" if "Suc k < Q" for k
  proof -
    have "Suc k * b \<le> (Q - 1) * b" using that by (intro mult_le_mono1) simp
    moreover have "(Q - 1) * b < n"
    proof (cases "n mod b = 0")
      case True
      then have "n = Q * b" using Q exact by simp
      then show ?thesis using Qpos b(1) by (simp add: diff_mult_distrib)
    next
      case False
      then have "(Q - 1) * b = n div b * b" using Q by simp
      moreover have "n div b * b + n mod b = n" by (rule div_mult_mod_eq)
      ultimately show ?thesis using False by linarith
    qed
    ultimately have "k * b + b \<le> n" by simp
    then show ?thesis using that by (simp add: nth n_def)
  qed
  have lastlen: "length (last bs) = (if n mod b = 0 then b else n mod b)"
  proof -
    have "bs \<noteq> []" using Qpos len by auto
    then have "last bs = bs ! (Q - 1)" using len by (simp add: last_conv_nth)
    then have l: "length (last bs) = min (n - (Q - 1) * b) b"
      using Qpos by (simp add: nth n_def)
    show ?thesis
    proof (cases "n mod b = 0")
      case True
      then have "n = Q * b" using Q exact by simp
      then have "n - (Q - 1) * b = b" using Qpos by (simp add: diff_mult_distrib)
      then show ?thesis using l True by simp
    next
      case False
      then have "(Q - 1) * b = n div b * b" using Q by simp
      then have "n - (Q - 1) * b = n mod b"
        by (metis add_diff_cancel_left' div_mult_mod_eq)
      then show ?thesis using l False b(1) by (simp add: min_def)
    qed
  qed
  have lastne: "last bs \<noteq> []"
    using lastlen b(1) by (cases "n mod b = 0") auto
  have cat: "concat bs = items"
    unfolding bs_def concat_chunks using cover by (simp add: n_def)
  have modB: "int (length items) mod B = int (n mod b)"
    by (simp add: b(2) n_def zmod_int)
  show ?thesis
  proof (intro exI conjI allI impI)
    show "BatchObjective_batches B items = Inr bs" by (rule run)
    show "int (length bs) = \<lceil>real (length items) / real_of_int B\<rceil>" by (rule count)
    show "int (length (bs ! k)) = B" if "Suc k < length bs" for k
      using full[of k] that len b(2) by simp
    show "int (length (last bs)) =
       (if int (length items) mod B = 0 then B else int (length items) mod B)"
      using lastlen modB b(2) by simp
    show "last bs \<noteq> []" by (rule lastne)
    show "concat bs = items" by (rule cat)
    show "bs ! k = take (nat B) (drop (k * nat B) items)" if "k < length bs" for k
      using nth[of k] that len by (simp add: b_def)
  qed
qed

theorem batch_partition_witness:
  "BatchObjective_batches 2 [[0], [5], [5 / 2], [1], [4 :: real]]
     = Inr [[[0], [5]], [[5 / 2], [1]], [[4]]] \<and>
   int (length [[[0], [5]], [[5 / 2], [1]], [[4 :: real]]]) = \<lceil>real 5 / real_of_int 2\<rceil> \<and>
   concat [[[0], [5]], [[5 / 2], [1]], [[4 :: real]]] = [[0], [5], [5 / 2], [1], [4]]"
  using batch_partition [where items = "[[0], [5], [5 / 2], [1], [4 :: real]]" and B = 2]
  by (simp add: eval_defs)

section \<open>Exceptions\<close>

lemma first_raised_append:
  "first_raised F (cs @ cs') =
     (case first_raised F cs of Some e \<Rightarrow> Some e | None \<Rightarrow> first_raised F cs')"
  by (induction cs) (auto split: sum.splits)


lemma call_items_first_raised:
  "first_raised F (fst (call_items j (F j) xs)) =
     (case snd (call_items j (F j) xs) of Inl e \<Rightarrow> Some e | Inr rs \<Rightarrow> None)"
  by (induction xs) (auto split: sum.splits prod.splits)

lemma call_all_first_raised:
  "(\<And>i. i < length fs \<Longrightarrow> F (j + i) = fs ! i) \<Longrightarrow>
     first_raised F (fst (call_all j fs x)) =
       (case snd (call_all j fs x) of Inl e \<Rightarrow> Some e | Inr rs \<Rightarrow> None)"
proof (induction fs arbitrary: j)
  case Nil
  show ?case by simp
next
  case (Cons f fs)
  have head: "F j = f" using Cons.prems[of 0] by simp
  have tail: "F (Suc j + i) = fs ! i" if "i < length fs" for i
    using Cons.prems[of "Suc i"] that by simp
  from Cons.IH[of "Suc j", OF tail] head show ?case
    by (auto split: sum.splits prod.splits)
qed

lemma call_each_first_raised:
  "(\<And>i. i < length fs \<Longrightarrow> F (j + i) = fs ! i) \<Longrightarrow>
     first_raised F (fst (call_each j fs xs)) =
       (case snd (call_each j fs xs) of Inl e \<Rightarrow> Some e | Inr rs \<Rightarrow> None)"
proof (induction fs arbitrary: j)
  case Nil
  show ?case by simp
next
  case (Cons f fs)
  have head: "F j = f" using Cons.prems[of 0] by simp
  have tail: "F (Suc j + i) = fs ! i" if "i < length fs" for i
    using Cons.prems[of "Suc i"] that by simp
  from Cons.IH[of "Suc j", OF tail] call_items_first_raised[of F j xs] head show ?case
    by (auto simp: first_raised_append split: sum.splits prod.splits)
qed









section \<open>Synchronous functions in the asynchronous variants\<close>

lemma BatchObjective_loop_dispatched:
  "(k, y) \<in> set (fst (BatchObjective_loop j fs bs)) \<Longrightarrow>
     j \<le> k \<and> k < j + length fs \<and> iscoroutinefunction (fs ! (k - j))"
proof (induction fs arbitrary: j)
  case Nil
  then show ?case by simp
next
  case (Cons f fs)
  show ?case
  proof (cases "(k, y) \<in> set (fst (BatchObjective_loop (Suc j) fs bs))")
    case True
    from Cons.IH[OF this] show ?thesis by (auto simp: Suc_diff_le)
  next
    case False
    with Cons.prems have "k = j \<and> iscoroutinefunction f"
      by (auto simp: BatchObjective_async_evaluate_def split: if_splits sum.splits prod.splits)
    then show ?thesis by simp
  qed
qed

lemma AsyncElementWise_loop_dispatched:
  "(k, y) \<in> set (fst (AsyncElementWise_loop j fs xs)) \<Longrightarrow>
     j \<le> k \<and> k < j + length fs \<and> iscoroutinefunction (fs ! (k - j))"
proof (induction fs arbitrary: j)
  case Nil
  then show ?case by simp
next
  case (Cons f fs)
  show ?case
  proof (cases "(k, y) \<in> set (fst (AsyncElementWise_loop (Suc j) fs xs))")
    case True
    from Cons.IH[OF this] show ?thesis by (auto simp: Suc_diff_le)
  next
    case False
    with Cons.prems have "k = j \<and> iscoroutinefunction f"
      by (auto simp: AsyncElementWise_async_evaluate_def split: if_splits sum.splits prod.splits)
    then show ?thesis by simp
  qed
qed

lemma BatchObjective_loop_synchronous:
  "\<not> list_all iscoroutinefunction fs \<Longrightarrow> \<exists>e. snd (BatchObjective_loop j fs bs) = Inl e"
proof (induction fs arbitrary: j)
  case Nil
  then show ?case by simp
next
  case (Cons f fs)
  show ?case
  proof (cases "iscoroutinefunction f")
    case False
    then show ?thesis by simp
  next
    case True
    with Cons.prems have "\<not> list_all iscoroutinefunction fs" by simp
    from Cons.IH[OF this, of "Suc j"] obtain e where
      "snd (BatchObjective_loop (Suc j) fs bs) = Inl e" by blast
    then show ?thesis
      by (cases "BatchObjective_loop (Suc j) fs bs") (auto split: sum.splits prod.splits)
  qed
qed

lemma AsyncElementWise_loop_synchronous:
  "\<not> list_all iscoroutinefunction fs \<Longrightarrow> \<exists>e. snd (AsyncElementWise_loop j fs xs) = Inl e"
proof (induction fs arbitrary: j)
  case Nil
  then show ?case by simp
next
  case (Cons f fs)
  show ?case
  proof (cases "iscoroutinefunction f")
    case False
    then show ?thesis by (simp add: AsyncElementWise_async_evaluate_def)
  next
    case True
    with Cons.prems have "\<not> list_all iscoroutinefunction fs" by simp
    from Cons.IH[OF this, of "Suc j"] obtain e where
      "snd (AsyncElementWise_loop (Suc j) fs xs) = Inl e" by blast
    then show ?thesis
      by (cases "AsyncElementWise_loop (Suc j) fs xs") (auto split: sum.splits prod.splits)
  qed
qed

lemma BatchObjective_loop_reaches:
  "snd (BatchObjective_loop j pre bs) = Inr r \<Longrightarrow> \<not> iscoroutinefunction f \<Longrightarrow>
     BatchObjective_loop j (pre @ f # post) bs =
       (fst (BatchObjective_loop j pre bs), Inl (NotAsynchronous (j + length pre)))"
proof (induction pre arbitrary: j r)
  case Nil
  then show ?case by simp
next
  case (Cons g pre)
  from Cons.prems(1) obtain r' where "snd (BatchObjective_loop (Suc j) pre bs) = Inr r'"
    by (cases "snd (BatchObjective_loop (Suc j) pre bs)")
      (auto split: if_splits sum.splits prod.splits)
  from Cons.IH[OF this Cons.prems(2)] Cons.prems(1) show ?case
    by (auto split: if_splits sum.splits prod.splits)
qed

lemma AsyncElementWise_loop_reaches:
  "snd (AsyncElementWise_loop j pre xs) = Inr r \<Longrightarrow> \<not> iscoroutinefunction f \<Longrightarrow>
     AsyncElementWise_loop j (pre @ f # post) xs =
       (fst (AsyncElementWise_loop j pre xs), Inl (NotAsynchronous (j + length pre)))"
proof (induction pre arbitrary: j r)
  case Nil
  then show ?case by (simp add: AsyncElementWise_async_evaluate_def)
next
  case (Cons g pre)
  from Cons.prems(1) obtain r' where "snd (AsyncElementWise_loop (Suc j) pre xs) = Inr r'"
    by (cases "snd (AsyncElementWise_loop (Suc j) pre xs)")
      (auto split: if_splits sum.splits prod.splits)
  from Cons.IH[OF this Cons.prems(2)] Cons.prems(1) show ?case
    by (auto split: if_splits sum.splits prod.splits)
qed

lemma not_all_coroutines:
  "n < length fs \<Longrightarrow> \<not> iscoroutinefunction (fs ! n) \<Longrightarrow> \<not> list_all iscoroutinefunction fs"
  by (auto simp: list_all_length)

text \<open>
  Claim C6, amended. When a batch or asynchronous element-wise objective holds a synchronous
  function at position \<open>n\<close>, \<^verbatim>\<open>evaluate\<close> returns no array, and no call of that function is ever
  made. When the evaluation reaches the function, that is when the batches could be cut and
  the loop over the functions before it completes, the exception is the calling-convention
  error for position \<open>n\<close>.
\<close>

theorem synchronous_function_rejected:
  "(n < length (objective_functions obj_b) \<and>
      \<not> iscoroutinefunction (objective_functions obj_b ! n) \<longrightarrow>
      (\<exists>e. BatchObjective_evaluate obj_b items_b = Inl e) \<and>
      (\<forall>y. (n, y) \<notin> set (fst (BatchObjective_run obj_b items_b))) \<and>
      (\<forall>bs r. BatchObjective_batches (batch_size obj_b) items_b = Inr bs \<and>
          snd (BatchObjective_loop 0 (take n (objective_functions obj_b)) bs) = Inr r \<longrightarrow>
          BatchObjective_evaluate obj_b items_b = Inl (NotAsynchronous n))) \<and>
   (m < length (objective_functions obj_a) \<and>
      \<not> iscoroutinefunction (objective_functions obj_a ! m) \<longrightarrow>
      (\<exists>e. AsyncElementWiseObjective_evaluate obj_a items_a = Inl e) \<and>
      (\<forall>y. (m, y) \<notin> set (fst (AsyncElementWiseObjective_run obj_a items_a))) \<and>
      (\<forall>r. snd (AsyncElementWise_loop 0 (take m (objective_functions obj_a)) items_a) = Inr r \<longrightarrow>
          AsyncElementWiseObjective_evaluate obj_a items_a = Inl (NotAsynchronous m)))"
proof (intro conjI impI allI; elim conjE)
  let ?fs = "objective_functions obj_b"
  assume n: "n < length ?fs" "\<not> iscoroutinefunction (?fs ! n)"
  have split: "?fs = take n ?fs @ ?fs ! n # drop (Suc n) ?fs"
    using n(1) by (rule id_take_nth_drop)
  show "\<exists>e. BatchObjective_evaluate obj_b items_b = Inl e"
  proof (cases "BatchObjective_batches (batch_size obj_b) items_b")
    case (Inl e)
    then show ?thesis by (simp add: BatchObjective_evaluate_def BatchObjective_run_def)
  next
    case (Inr bs)
    from BatchObjective_loop_synchronous[OF not_all_coroutines[OF n], of 0 bs]
    show ?thesis using Inr
      by (auto simp: BatchObjective_evaluate_def BatchObjective_run_def split: prod.splits)
  qed
  show "(n, y) \<notin> set (fst (BatchObjective_run obj_b items_b))" for y
  proof
    assume dispatched: "(n, y) \<in> set (fst (BatchObjective_run obj_b items_b))"
    show False
    proof (cases "BatchObjective_batches (batch_size obj_b) items_b")
      case (Inl e)
      with dispatched show False by (simp add: BatchObjective_run_def)
    next
      case (Inr bs)
      with dispatched have "(n, y) \<in> set (fst (BatchObjective_loop 0 ?fs bs))"
        by (simp add: BatchObjective_run_def split: prod.splits)
      from BatchObjective_loop_dispatched[OF this] n(2) show False by simp
    qed
  qed
  show "BatchObjective_evaluate obj_b items_b = Inl (NotAsynchronous n)"
    if "BatchObjective_batches (batch_size obj_b) items_b = Inr bs"
      and "snd (BatchObjective_loop 0 (take n ?fs) bs) = Inr r" for bs r
  proof -
    have "BatchObjective_loop 0 (take n ?fs @ ?fs ! n # drop (Suc n) ?fs) bs =
        (fst (BatchObjective_loop 0 (take n ?fs) bs), Inl (NotAsynchronous (0 + length (take n ?fs))))"
      using that(2) n(2) by (rule BatchObjective_loop_reaches)
    then have "BatchObjective_loop 0 ?fs bs =
        (fst (BatchObjective_loop 0 (take n ?fs) bs), Inl (NotAsynchronous n))"
      using split n(1) by simp
    then show ?thesis using that(1)
      by (simp add: BatchObjective_evaluate_def BatchObjective_run_def)
  qed
next
  let ?fs = "objective_functions obj_a"
  assume m: "m < length ?fs" "\<not> iscoroutinefunction (?fs ! m)"
  have split: "?fs = take m ?fs @ ?fs ! m # drop (Suc m) ?fs"
    using m(1) by (rule id_take_nth_drop)
  from AsyncElementWise_loop_synchronous[OF not_all_coroutines[OF m], of 0 items_a]
  show "\<exists>e. AsyncElementWiseObjective_evaluate obj_a items_a = Inl e"
    by (auto simp: AsyncElementWiseObjective_evaluate_def AsyncElementWiseObjective_run_def
        split: prod.splits)
  show "(m, y) \<notin> set (fst (AsyncElementWiseObjective_run obj_a items_a))" for y
  proof
    assume "(m, y) \<in> set (fst (AsyncElementWiseObjective_run obj_a items_a))"
    then have "(m, y) \<in> set (fst (AsyncElementWise_loop 0 ?fs items_a))"
      by (auto simp: AsyncElementWiseObjective_run_def split: sum.splits prod.splits)
    from AsyncElementWise_loop_dispatched[OF this] m(2) show False by simp
  qed
  show "AsyncElementWiseObjective_evaluate obj_a items_a = Inl (NotAsynchronous m)"
    if "snd (AsyncElementWise_loop 0 (take m ?fs) items_a) = Inr r" for r
  proof -
    have "AsyncElementWise_loop 0 (take m ?fs @ ?fs ! m # drop (Suc m) ?fs) items_a =
        (fst (AsyncElementWise_loop 0 (take m ?fs) items_a),
         Inl (NotAsynchronous (0 + length (take m ?fs))))"
      using that m(2) by (rule AsyncElementWise_loop_reaches)
    then have "AsyncElementWise_loop 0 ?fs items_a =
        (fst (AsyncElementWise_loop 0 (take m ?fs) items_a), Inl (NotAsynchronous m))"
      using split m(1) by simp
    then show ?thesis
      by (simp add: AsyncElementWiseObjective_evaluate_def AsyncElementWiseObjective_run_def)
  qed
qed

theorem synchronous_function_rejected_witness:
  "BatchObjective_run
     (example_batch_objective [coroutine fg_rows, synchronous fg_rows] [1, 1] 2) [[0], [5], [1]]
     = ([(0, [[0], [5]]), (0, [[1]])], Inl (NotAsynchronous 1)) \<and>
   AsyncElementWiseObjective_run
     (example_objective [coroutine f_item, synchronous g_item] [1, 1]) [[0], [5]]
     = ([(0, [0]), (0, [5])], Inl (NotAsynchronous 1))"
  using synchronous_function_rejected [where n = 1 and m = 1
      and obj_b = "example_batch_objective [coroutine fg_rows, synchronous fg_rows] [1, 1] 2"
      and items_b = "[[0], [5], [1]]"
      and obj_a = "example_objective [coroutine f_item, synchronous g_item] [1, 1]"
      and items_a = "[[0], [5]]"]
  by (simp add: eval_defs ex_defs)

text \<open>
  Claim C6 as stated fails when something raises before the synchronous function is reached:
  an earlier coroutine function that raises (here \<^verbatim>\<open>p[0]\<close> on an empty candidate), or a zero
  batch size. The exception is then the earlier one, not the calling-convention error.
\<close>

theorem earlier_failure_counterexample:
  "AsyncElementWiseObjective_evaluate
     (example_objective [coroutine f_item, synchronous g_item] [1, 1]) [[]]
     = Inl (UserException ''IndexError'') \<and>
   BatchObjective_evaluate
     (example_batch_objective [synchronous fg_rows] [1] 0) [[0], [5]]
     = Inl ZeroDivisionError"
  by (simp add: eval_defs ex_defs)

section \<open>The shape of the result\<close>

lemma np_array_uniform:
  "rows \<noteq> [] \<Longrightarrow> \<forall>r \<in> set rows. length r = k \<Longrightarrow> np_array rows = Inr (Array2 k rows)"
  by (cases rows) (auto simp: list_all_iff)

lemma multiply_rows:
  "broadcast_ok k (length ds) \<Longrightarrow>
     multiply (Array2 k rows) ds =
       Inr (Array2 (broadcast_len k (length ds)) (map (\<lambda>r. mul_row r ds) rows))"
  by simp

lemma Objective_evaluate_rows:
  assumes fs: "objective_functions obj = [f]"
    and f: "f items = Inr (Stacked (map row items))"
    and ne: "items \<noteq> []"
    and k: "\<forall>x \<in> set items. length (row x) = k"
    and ok: "broadcast_ok k (length (directions obj))"
  shows "Objective_evaluate obj items =
    Inr (Array2 (broadcast_len k (length (directions obj)))
          (map (\<lambda>x. mul_row (row x) (directions obj)) items))"
proof -
  have arr: "np_array (map row items) = Inr (Array2 k (map row items))"
    using ne k by (intro np_array_uniform) auto
  then have "Objective_stack [Stacked (map row items)] = Inr (Array2 k (map row items))"
    by (simp add: Objective_stack_def)
  then show ?thesis
    using fs f ok
    by (simp add: Objective_evaluate_def Objective_run_def Objective_normalise_def o_def)
qed

lemma call_items_total:
  "\<forall>x \<in> set xs. f x = Inr (g x) \<Longrightarrow> snd (call_items j f xs) = Inr (map g xs)"
  by (induction xs) (auto split: prod.splits)

lemma call_each_total:
  "\<forall>f \<in> set fs. \<forall>x \<in> set xs. f x = Inr (g f x) \<Longrightarrow>
     snd (call_each j fs xs) = Inr (map (\<lambda>f. map (g f) xs) fs)"
proof (induction fs arbitrary: j)
  case Nil
  show ?case by simp
next
  case (Cons f fs)
  have "snd (call_items j f xs) = Inr (map (g f) xs)"
    using Cons.prems by (intro call_items_total) simp
  moreover have "snd (call_each (Suc j) fs xs) = Inr (map (\<lambda>f. map (g f) xs) fs)"
    using Cons.prems by (intro Cons.IH) simp
  ultimately show ?case by (auto split: prod.splits sum.splits)
qed


















section \<open>The vectorized and the element-wise variant\<close>

lemma vectors_map: "vectors (map (\<lambda>x. Vector (h x)) xs) = Some (map h xs)"
  by (induction xs) auto

lemma scalars_vectors: "xs \<noteq> [] \<Longrightarrow> scalars (map (\<lambda>x. Vector (h x)) xs) = None"
  by (cases xs) auto

lemma double_transpose:
  assumes "\<forall>r \<in> set rows. length r = k"
  shows "map (\<lambda>i. map (\<lambda>c. c ! i) (map (\<lambda>j. map (\<lambda>r. r ! j) rows) [0..<k])) [0..<length rows] = rows"
proof (rule nth_equalityI)
  show "length (map (\<lambda>i. map (\<lambda>c. c ! i) (map (\<lambda>j. map (\<lambda>r. r ! j) rows) [0..<k])) [0..<length rows])
      = length rows" by simp
next
  fix i
  assume "i < length (map (\<lambda>i. map (\<lambda>c. c ! i) (map (\<lambda>j. map (\<lambda>r. r ! j) rows) [0..<k])) [0..<length rows])"
  then have i: "i < length rows" by simp
  then have "length (rows ! i) = k" using assms by simp
  then have "map (\<lambda>j. rows ! i ! j) [0..<k] = rows ! i"
    by (metis map_nth)
  then show "map (\<lambda>i. map (\<lambda>c. c ! i) (map (\<lambda>j. map (\<lambda>r. r ! j) rows) [0..<k])) [0..<length rows] ! i
      = rows ! i"
    using i by (simp add: o_def)
qed

lemma ElementWiseObjective_evaluate_vectors:
  assumes fs: "objective_functions obj = [g]"
    and g: "\<forall>x \<in> set items. g x = Inr (Vector (row x))"
    and ne: "items \<noteq> []"
    and k: "\<forall>x \<in> set items. length (row x) = k"
    and kpos: "0 < k"
    and ok: "broadcast_ok k (length (directions obj))"
  shows "ElementWiseObjective_evaluate obj items =
    Inr (Array2 (broadcast_len k (length (directions obj)))
          (map (\<lambda>x. mul_row (row x) (directions obj)) items))"
proof -
  define rows where "rows = map row items"
  define cols where "cols = map (\<lambda>j. map (\<lambda>r. r ! j) rows) [0..<k]"
  have rows: "rows \<noteq> []" "\<forall>r \<in> set rows. length r = k" "length rows = length items"
    using ne k by (auto simp: rows_def)
  have calls: "snd (call_each 0 [g] items) = Inr [map (\<lambda>x. Vector (row x)) items]"
    using call_each_total[of "[g]" items "\<lambda>f x. Vector (row x)" 0] g by simp
  have "np_array_items (map (\<lambda>x. Vector (row x)) items) = Inr (Array2 k rows)"
    using ne rows(1,2)
    by (simp add: np_array_items_def scalars_vectors vectors_map np_array_uniform rows_def)
  then have sols: "ElementWise_solutions [map (\<lambda>x. Vector (row x)) items] = Inr cols"
    by (simp add: columns_def cols_def)
  have "cols \<noteq> []" "\<forall>c \<in> set cols. length c = length rows"
    using kpos by (auto simp: cols_def)
  then have "np_array cols = Inr (Array2 (length rows) cols)"
    by (rule np_array_uniform)
  then have "stack_columns cols
      = Inr (Array2 (length cols) (map (\<lambda>i. map (\<lambda>c. c ! i) cols) [0..<length rows]))"
    by (simp add: stack_columns_def)
  also have "map (\<lambda>i. map (\<lambda>c. c ! i) cols) [0..<length rows] = rows"
    unfolding cols_def using rows(2) by (rule double_transpose)
  also have "length cols = k" by (simp add: cols_def)
  finally have "ElementWise_stack [map (\<lambda>x. Vector (row x)) items] = Inr (Array2 k rows)"
    using sols by (simp add: ElementWise_stack_def)
  then show ?thesis
    using calls ok fs
    by (cases "call_each 0 [g] items")
      (simp add: ElementWiseObjective_evaluate_def ElementWiseObjective_run_def
        ElementWise_normalise_def rows_def o_def)
qed

text \<open>
  Where the vectorized function returns one row per candidate and the per-candidate function
  returns that row as a vector, a single function on a population that is not empty, the
  vectorized and the element-wise variant return the same matrix.
\<close>

lemma variants_agree_on_rows:
  assumes "objective_functions obj_v = [f]" and "objective_functions obj_e = [g]"
    and "directions obj_v = directions obj_e"
    and "f items = Inr (Stacked (map row items))"
    and "\<forall>x \<in> set items. g x = Inr (Vector (row x))"
    and "items \<noteq> []" and "\<forall>x \<in> set items. length (row x) = k" and "0 < k"
    and "broadcast_ok k (length (directions obj_e))"
  shows "Objective_evaluate obj_v items = ElementWiseObjective_evaluate obj_e items"
  using assms
  by (simp add: Objective_evaluate_rows[where row = row and k = k]
      ElementWiseObjective_evaluate_vectors[where row = row and k = k])

subsection \<open>Flat results in the vectorized variant\<close>

text \<open>
  Claim C2 fails on \<^verbatim>\<open>Objective.evaluate\<close> with flat results. Two functions, the first to
  minimize and the second to maximize, on two candidates: line 49 stacks the two flat results
  as rows and multiplies along the candidates, so the second candidate's value of the first
  objective is negated and the first candidate's value of the second objective is not. The
  element-wise variant, which transposes, returns the matrix the claim describes.
\<close>

theorem flat_results_signs:
  "Objective_evaluate (example_objective [f_flat, g_flat] [1, - 1]) [[1], [2]]
     = Inr (Array2 2 [[1, - 4], [16, - 9]]) \<and>
   ElementWiseObjective_evaluate (example_objective [f_item, g_item] [1, - 1]) [[1], [2]]
     = Inr (Array2 2 [[1, - 16], [4, - 9]])"
  by (simp add: eval_defs ex_defs)

text \<open>
  Claim C3 fails on the same lines. One function given as a flat vectorized function and as
  the per-candidate function it comes from: the vectorized variant returns one row of two
  values where the element-wise variant returns two rows of one. With two such functions and
  three candidates the vectorized variant raises, the operands not broadcasting, where the
  element-wise variant returns the three rows.
\<close>

theorem flat_results_orientation:
  "Objective_evaluate (example_objective [f_flat] [1]) [[1], [2]] = Inr (Array2 2 [[1, 4]]) \<and>
   ElementWiseObjective_evaluate (example_objective [f_item] [1]) [[1], [2]]
     = Inr (Array2 1 [[1], [4]]) \<and>
   Objective_evaluate (example_objective [f_flat, g_flat] [1, 1]) [[0], [5], [5 / 2]]
     = Inl BroadcastError \<and>
   ElementWiseObjective_evaluate (example_objective [f_item, g_item] [1, 1]) [[0], [5], [5 / 2]]
     = Inr (Array2 2 [[0, 25], [25, 0], [25 / 4, 25 / 4]])"
  by (simp add: eval_defs ex_defs)

end
